theory Spec2Isabelle
  imports Main "HOL-Library.AList" "HOL-Library.Multiset" "HOL-Library.Product_Lexorder"
    "HOL-Library.Word"
begin

section \<open>The update library manager of the launcher agent\<close>

text \<open>
  This theory embeds the update library manager (\<^verbatim>\<open>updateLibraryManager\<close>: \<^verbatim>\<open>AddToLibrary\<close>,
  \<^verbatim>\<open>TidyLibrary\<close> and their helpers) and the Windows executable check
  \<^verbatim>\<open>checkExecutablePermissions\<close>. File names are Go strings, that is byte sequences:
  \<^typ>\<open>string\<close>. The content of a downloaded archive is a list of bytes.
\<close>

type_synonym byte = "8 word"

subsection \<open>Go's string helpers\<close>

definition HasPrefix :: "string \<Rightarrow> string \<Rightarrow> bool" where
  "HasPrefix s p = (length p \<le> length s \<and> take (length p) s = p)"

definition HasSuffix :: "string \<Rightarrow> string \<Rightarrow> bool" where
  "HasSuffix s p = (length p \<le> length s \<and> drop (length s - length p) s = p)"

definition TrimPrefix :: "string \<Rightarrow> string \<Rightarrow> string" where
  "TrimPrefix s p = (if HasPrefix s p then drop (length p) s else s)"

definition TrimSuffix :: "string \<Rightarrow> string \<Rightarrow> string" where
  "TrimSuffix s p = (if HasSuffix s p then take (length s - length p) s else s)"

subsection \<open>Binaries and target file names\<close>

text \<open>
  Modelled from the spec: the type \<^verbatim>\<open>autoupdatableBinary\<close> and its constants are declared
  outside the files at hand. The specification gives the closed set of binary kinds,
  \<^verbatim>\<open>launcher\<close> and \<^verbatim>\<open>osqueryd\<close>; in the code the type is a string, read here by
  \<open>binary_string\<close>.
\<close>

datatype autoupdatableBinary = binaryLauncher | binaryOsqueryd

fun binary_string :: "autoupdatableBinary \<Rightarrow> string" where
  "binary_string binaryLauncher = ''launcher''"
| "binary_string binaryOsqueryd = ''osqueryd''"

definition versionFromTarget :: "autoupdatableBinary \<Rightarrow> string \<Rightarrow> string" where
  "versionFromTarget binary targetFilename =
     (let prefixToTrim = binary_string binary @ ''-''
      in TrimSuffix (TrimPrefix targetFilename prefixToTrim) ''.tar.gz'')"

subsection \<open>The executable check on Windows\<close>

text \<open>
  \<^verbatim>\<open>os.Stat\<close> returns a pair: a \<^verbatim>\<open>FileInfo\<close> (an interface value, \<^verbatim>\<open>nil\<close> when the call
  fails) and an error (\<^verbatim>\<open>nil\<close> when it succeeds). Calling a method on the \<^verbatim>\<open>nil\<close>
  \<^verbatim>\<open>FileInfo\<close> is a run-time panic, which the model returns as \<open>Panic\<close>.
\<close>

datatype FileInfo = FileInfo (IsDir: bool)

datatype os_error = ENOENT | EACCES | EIO

datatype check_error =
    EmptyString
  | NoSuchFile
  | IsADirectory
  | StattingFile os_error
  | NotExecutable

datatype 'a outcome = Return 'a | Panic

definition IsNotExist :: "os_error option \<Rightarrow> bool" where
  "IsNotExist err = (err = Some ENOENT)"

text \<open>
  The cases of Go's tagless \<^verbatim>\<open>switch\<close> are evaluated from top to bottom, and the first
  true one is taken: \<^verbatim>\<open>stat.IsDir()\<close> is evaluated whenever \<^verbatim>\<open>os.IsNotExist(err)\<close> is
  false, before \<^verbatim>\<open>err != nil\<close> is looked at.
\<close>

definition checkExecutablePermissions ::
  "(string \<Rightarrow> FileInfo option \<times> os_error option) \<Rightarrow> string \<Rightarrow> check_error option outcome" where
  "checkExecutablePermissions os_Stat potentialBinary =
     (if potentialBinary = [] then Return (Some EmptyString)
      else
        (case os_Stat potentialBinary of (stat, err) \<Rightarrow>
          if IsNotExist err then Return (Some NoSuchFile)
          else
            (case stat of
              None \<Rightarrow> Panic
            | Some fi \<Rightarrow>
                if IsDir fi then Return (Some IsADirectory)
                else
                  (case err of
                    Some e \<Rightarrow> Return (Some (StattingFile e))
                  | None \<Rightarrow>
                      if \<not> HasSuffix potentialBinary ''.exe'' then Return (Some NotExecutable)
                      else Return None))))"

text \<open>
  What \<^verbatim>\<open>os.Stat\<close> promises: a \<^verbatim>\<open>FileInfo\<close> exactly when there is no error.
\<close>

definition stat_contract :: "(string \<Rightarrow> FileInfo option \<times> os_error option) \<Rightarrow> bool" where
  "stat_contract os_Stat =
     (\<forall>p. case os_Stat p of (stat, err) \<Rightarrow> (stat = None) = (err \<noteq> None))"

subsection \<open>Target metadata and its verification\<close>

text \<open>
  The target metadata of the update framework: the declared length (a signed 64-bit integer
  in the code, read by \<^verbatim>\<open>io.LimitReader\<close>, for which a bound below one means "read
  nothing") and one digest for each hash algorithm.
\<close>

record TargetFileMeta =
  Length :: int
  Hashes :: "(string \<times> byte list) list"

definition HashAlgorithms :: "TargetFileMeta \<Rightarrow> string list" where
  "HashAlgorithms m = map fst (Hashes m)"

text \<open>
  Modelled from the spec: \<^verbatim>\<open>GenerateTargetFileMeta\<close> and \<^verbatim>\<open>TargetFileMetaEqual\<close> belong to the
  update framework's library, outside the files at hand. By the specification, the bytes
  read are fed to a hasher for every algorithm that the supplied metadata lists, which gives
  the actual metadata (the number of bytes and their digests); the actual and the supplied
  metadata agree when the lengths are equal and, for every algorithm of the supplied metadata,
  the digests are equal. The hash functions are a parameter: \<open>hashOf a\<close> is \<open>None\<close> for an
  algorithm the library does not know, which is an error.
\<close>

fun hashAll :: "(string \<Rightarrow> (byte list \<Rightarrow> byte list) option) \<Rightarrow> string list \<Rightarrow> byte list
    \<Rightarrow> (string \<times> byte list) list option" where
  "hashAll h [] bs = Some []"
| "hashAll h (a # as) bs =
     (case h a of
        None \<Rightarrow> None
      | Some f \<Rightarrow> (case hashAll h as bs of None \<Rightarrow> None | Some ds \<Rightarrow> Some ((a, f bs) # ds)))"

definition GenerateTargetFileMeta ::
  "(string \<Rightarrow> (byte list \<Rightarrow> byte list) option) \<Rightarrow> byte list \<Rightarrow> string list
    \<Rightarrow> TargetFileMeta option" where
  "GenerateTargetFileMeta h bs algorithms =
     (case hashAll h algorithms bs of
        None \<Rightarrow> None
      | Some ds \<Rightarrow> Some \<lparr>Length = int (length bs), Hashes = ds\<rparr>)"

definition TargetFileMetaEqual :: "TargetFileMeta \<Rightarrow> TargetFileMeta \<Rightarrow> bool" where
  "TargetFileMetaEqual actual expected =
     (Length actual = Length expected \<and>
      list_all (\<lambda>(a, d). map_of (Hashes actual) a = Some d) (Hashes expected))"

text \<open>
  The mirror's response: the bytes its body delivers, and whether the stream then breaks
  instead of ending. \<^verbatim>\<open>io.LimitReader\<close> stops after \<open>n\<close> bytes without touching the body
  again, so a break of the stream is seen only when the body is shorter than the limit;
  \<^verbatim>\<open>io.TeeReader\<close> copies every byte read into the file buffer. \<open>readLimited\<close> gives the
  bytes that reach the hasher and the buffer, and whether the read failed.
\<close>

datatype response = Response (Body: "byte list") (BodyBreaks: bool)

definition readLimited :: "response \<Rightarrow> int \<Rightarrow> byte list \<times> bool" where
  "readLimited resp n =
     (take (nat n) (Body resp), BodyBreaks resp \<and> length (Body resp) < nat n)"

subsection \<open>The file system and the environment\<close>

text \<open>
  The state is what the library manager reads and writes: for each binary the version
  directories of its update library \<^verbatim>\<open><base>/<binary>/\<close> (a name and the directory's tree),
  the entries of the shared staging directory (a staged archive is a file; a candidate being
  validated is a directory), and the number of requests sent to the mirror. Both directories
  are association lists from the entry's name, a single path component. The type \<open>'c\<close>
  of directory trees is left open.
\<close>

datatype 'c staged = File "byte list" | Dir 'c

record 'c world =
  library :: "autoupdatableBinary \<Rightarrow> (string \<times> 'c) list"
  staging :: "(string \<times> 'c staged) list"
  requests :: nat

datatype path = StagedPath string | LibraryPath autoupdatableBinary string

datatype directory = StagingDir | UpdatesDir autoupdatableBinary

text \<open>
  Everything outside the program that decides a branch of it is a field of the environment:
  the mirror, the hash functions, the outcome of each file system call (\<open>True\<close>: no
  error), the archive extraction, the liveness probe
  \<^verbatim>\<open>autoupdate.CheckExecutable(ctx, executable, "--version")\<close> (a function of the binary kind and
  of the tree of the version directory), and the semantic version library: \<open>NewVersion\<close>
  parses a name into a value of the ordered type \<open>'v\<close> (what \<^verbatim>\<open>Compare\<close> looks at), and
  \<open>sort_Sort\<close> is \<^verbatim>\<open>sort.Sort\<close> on a collection of parsed versions, each paired with the
  string it was parsed from (\<^verbatim>\<open>Original()\<close>).
\<close>

record ('c, 'v) env =
  mirrorGet :: "autoupdatableBinary \<Rightarrow> string \<Rightarrow> response option"
  hashOf :: "string \<Rightarrow> (byte list \<Rightarrow> byte list) option"
  os_Create :: "string \<Rightarrow> bool"
  io_Copy :: "string \<Rightarrow> byte list \<Rightarrow> nat option"
  out_Close :: "string \<Rightarrow> bool"
  os_MkdirAll :: "string \<Rightarrow> bool"
  emptyDir :: 'c
  UntarBundle :: "'c \<Rightarrow> byte list \<Rightarrow> 'c \<times> bool"
  os_Chmod :: "autoupdatableBinary \<Rightarrow> 'c \<Rightarrow> 'c option"
  CheckExecutable :: "autoupdatableBinary \<Rightarrow> 'c \<Rightarrow> bool"
  os_Rename :: "autoupdatableBinary \<Rightarrow> string \<Rightarrow> bool"
  os_RemoveAll :: "path \<Rightarrow> bool"
  Glob :: "directory \<Rightarrow> bool"
  NewVersion :: "string \<Rightarrow> 'v option"
  sort_Sort :: "('v \<times> string) list \<Rightarrow> ('v \<times> string) list"

text \<open>
  \<open>io_Copy e p buf\<close> is \<open>None\<close> when the whole buffer was written, and \<open>Some k\<close> when the
  write failed after \<open>k\<close> bytes. \<open>UntarBundle e c bs\<close> extracts the archive \<open>bs\<close> into a
  directory whose tree is \<open>c\<close> and gives the tree afterwards, and whether it succeeded.
  \<open>os_Chmod e b c\<close> is the tree with the executable of \<open>b\<close> made runnable, or \<open>None\<close> on
  error. A failed \<^verbatim>\<open>os.RemoveAll\<close> is taken to leave the entry as it was.
\<close>

subsection \<open>Looking up the library\<close>

definition Available :: "('c, 'v) env \<Rightarrow> 'c world \<Rightarrow> autoupdatableBinary \<Rightarrow> string \<Rightarrow> bool" where
  "Available e s binary targetFilename =
     (let targetVersion = versionFromTarget binary targetFilename
      in case map_of (library s binary) targetVersion of
           None \<Rightarrow> False
         | Some c \<Rightarrow> CheckExecutable e binary c)"

subsection \<open>Staging and verifying a download\<close>

datatype stage_error =
    RequestFailed
  | MetadataFailed
  | VerificationFailed
  | CreateFailed
  | WriteFailed
  | CloseFailed

definition writeStaged :: "string \<Rightarrow> 'c staged \<Rightarrow> 'c world \<Rightarrow> 'c world" where
  "writeStaged name x s = s\<lparr>staging := AList.update name x (staging s)\<rparr>"

definition isFile :: "'c staged option \<Rightarrow> bool" where
  "isFile x = (case x of Some (File bs) \<Rightarrow> True | _ \<Rightarrow> False)"

definition isDir :: "'c staged option \<Rightarrow> bool" where
  "isDir x = (case x of Some (Dir c) \<Rightarrow> True | _ \<Rightarrow> False)"

text \<open>
  The path returned beside an error is not used by the caller, so the model returns either
  the error or the path. \<^verbatim>\<open>os.Create\<close> fails on a directory, whatever the environment says.
\<close>

definition stageAndVerifyUpdate ::
  "('c, 'v) env \<Rightarrow> autoupdatableBinary \<Rightarrow> string \<Rightarrow> TargetFileMeta \<Rightarrow> 'c world
    \<Rightarrow> (stage_error + string) \<times> 'c world" where
  "stageAndVerifyUpdate e binary targetFilename localTargetMetadata s =
     (let stagedUpdatePath = targetFilename;
          s1 = s\<lparr>requests := requests s + 1\<rparr>
      in case mirrorGet e binary targetFilename of
           None \<Rightarrow> (Inl RequestFailed, s1)
         | Some resp \<Rightarrow>
            (case readLimited resp (Length localTargetMetadata) of (fileBuffer, readFailed) \<Rightarrow>
              (case (if readFailed then None
                     else GenerateTargetFileMeta (hashOf e) fileBuffer
                            (HashAlgorithms localTargetMetadata)) of
                 None \<Rightarrow> (Inl MetadataFailed, s1)
               | Some actualTargetMeta \<Rightarrow>
                  if \<not> TargetFileMetaEqual actualTargetMeta localTargetMetadata
                  then (Inl VerificationFailed, s1)
                  else if \<not> os_Create e stagedUpdatePath
                          \<or> isDir (map_of (staging s1) stagedUpdatePath)
                  then (Inl CreateFailed, s1)
                  else
                    (case io_Copy e stagedUpdatePath fileBuffer of
                       Some k \<Rightarrow>
                         (Inl WriteFailed, writeStaged stagedUpdatePath (File (take k fileBuffer)) s1)
                     | None \<Rightarrow>
                         (let s2 = writeStaged stagedUpdatePath (File fileBuffer) s1
                          in if \<not> out_Close e stagedUpdatePath then (Inl CloseFailed, s2)
                             else (Inr stagedUpdatePath, s2))))))"

subsection \<open>Validating and installing a staged update\<close>

datatype move_error =
    MkdirFailed
  | UntarFailed
  | ChmodFailed
  | ExecutableInvalid
  | RenameFailed

definition removeStaged :: "('c, 'v) env \<Rightarrow> string \<Rightarrow> 'c world \<Rightarrow> 'c world" where
  "removeStaged e name s =
     (if os_RemoveAll e (StagedPath name) then s\<lparr>staging := AList.delete name (staging s)\<rparr>
      else s)"

text \<open>
  \<^verbatim>\<open>os.MkdirAll\<close> fails on a path that is a file, keeps a directory that is there, and
  creates an empty one otherwise. From then on every exit runs the deferred removal of the
  staged version directory, \<open>removeStaged\<close>. The rename moves the validated tree from
  the staging directory to the library.
\<close>

definition moveVerifiedUpdate ::
  "('c, 'v) env \<Rightarrow> autoupdatableBinary \<Rightarrow> string \<Rightarrow> string \<Rightarrow> 'c world
    \<Rightarrow> move_error option \<times> 'c world" where
  "moveVerifiedUpdate e binary targetFilename stagedUpdate s =
     (let targetVersion = versionFromTarget binary targetFilename;
          stagedVersionedDirectory = targetVersion
      in if \<not> os_MkdirAll e stagedVersionedDirectory
            \<or> isFile (map_of (staging s) stagedVersionedDirectory)
         then (Some MkdirFailed, s)
         else
           (let c0 = (case map_of (staging s) stagedVersionedDirectory of
                        Some (Dir c) \<Rightarrow> c
                      | _ \<Rightarrow> emptyDir e);
                s1 = writeStaged stagedVersionedDirectory (Dir c0) s
            in case map_of (staging s1) stagedUpdate of
                 Some (File bs) \<Rightarrow>
                   (case UntarBundle e c0 bs of (c1, untarred) \<Rightarrow>
                     (let s2 = writeStaged stagedVersionedDirectory (Dir c1) s1
                      in if \<not> untarred
                         then (Some UntarFailed, removeStaged e stagedVersionedDirectory s2)
                         else
                           (case os_Chmod e binary c1 of
                              None \<Rightarrow>
                                (Some ChmodFailed, removeStaged e stagedVersionedDirectory s2)
                            | Some c2 \<Rightarrow>
                               (let s3 = writeStaged stagedVersionedDirectory (Dir c2) s2
                                in if \<not> CheckExecutable e binary c2
                                   then (Some ExecutableInvalid,
                                         removeStaged e stagedVersionedDirectory s3)
                                   else if \<not> os_Rename e binary targetVersion
                                   then (Some RenameFailed,
                                         removeStaged e stagedVersionedDirectory s3)
                                   else
                                     (None,
                                      removeStaged e stagedVersionedDirectory
                                        (s3\<lparr>staging :=
                                               AList.delete stagedVersionedDirectory (staging s3),
                                             library := (library s3)
                                               (binary := AList.update targetVersion c2
                                                            (library s3 binary))\<rparr>))))))
               | _ \<Rightarrow> (Some UntarFailed, removeStaged e stagedVersionedDirectory s1)))"

subsection \<open>Tidying the staging directory\<close>

fun removeMatches :: "('c, 'v) env \<Rightarrow> string list \<Rightarrow> 'c world \<Rightarrow> 'c world" where
  "removeMatches e [] s = s"
| "removeMatches e (m # matches) s = removeMatches e matches (removeStaged e m s)"

definition tidyStagedUpdates :: "('c, 'v) env \<Rightarrow> autoupdatableBinary \<Rightarrow> 'c world \<Rightarrow> 'c world" where
  "tidyStagedUpdates e binary s =
     (if \<not> Glob e StagingDir then s
      else removeMatches e (map fst (staging s)) s)"

subsection \<open>Adding a target to the library\<close>

datatype add_error = CouldNotStage stage_error | CouldNotMove move_error

text \<open>
  The two early returns come before the deferred \<open>tidyStagedUpdates\<close> is registered; every
  later exit runs it.
\<close>

definition AddToLibrary ::
  "('c, 'v) env \<Rightarrow> autoupdatableBinary \<Rightarrow> string \<Rightarrow> string \<Rightarrow> TargetFileMeta \<Rightarrow> 'c world
    \<Rightarrow> add_error option \<times> 'c world" where
  "AddToLibrary e binary currentVersion targetFilename targetMetadata s =
     (if currentVersion = versionFromTarget binary targetFilename then (None, s)
      else if Available e s binary targetFilename then (None, s)
      else
        (case stageAndVerifyUpdate e binary targetFilename targetMetadata s of
           (Inl err, s1) \<Rightarrow> (Some (CouldNotStage err), tidyStagedUpdates e binary s1)
         | (Inr stagedUpdatePath, s1) \<Rightarrow>
            (case moveVerifiedUpdate e binary targetFilename stagedUpdatePath s1 of
               (Some err, s2) \<Rightarrow> (Some (CouldNotMove err), tidyStagedUpdates e binary s2)
             | (None, s2) \<Rightarrow> (None, tidyStagedUpdates e binary s2))))"

subsection \<open>Tidying the update library\<close>

definition removeUpdate ::
  "('c, 'v) env \<Rightarrow> autoupdatableBinary \<Rightarrow> string \<Rightarrow> 'c world \<Rightarrow> 'c world" where
  "removeUpdate e binary binaryVersion s =
     (if os_RemoveAll e (LibraryPath binary binaryVersion)
      then s\<lparr>library := (library s)(binary := AList.delete binaryVersion (library s binary))\<rparr>
      else s)"

text \<open>
  The loop of \<^verbatim>\<open>sortedVersionsInLibrary\<close> over the names that the glob returns: a name that
  does not parse, or whose executable fails the probe, is appended to the invalid versions;
  the others are collected as parsed versions.
\<close>

fun classify :: "('c, 'v) env \<Rightarrow> autoupdatableBinary \<Rightarrow> (string \<times> 'c) list \<Rightarrow> string list
    \<Rightarrow> ('v \<times> string) list \<times> string list" where
  "classify e binary lib [] = ([], [])"
| "classify e binary lib (rawVersion # raws) =
     (case classify e binary lib raws of (versions, invalidVersions) \<Rightarrow>
       (case NewVersion e rawVersion of
          None \<Rightarrow> (versions, rawVersion # invalidVersions)
        | Some v \<Rightarrow>
           if \<not> (case map_of lib rawVersion of None \<Rightarrow> False
                  | Some c \<Rightarrow> CheckExecutable e binary c)
           then (versions, rawVersion # invalidVersions)
           else ((v, rawVersion) # versions, invalidVersions)))"

definition sortedVersionsInLibrary ::
  "('c, 'v) env \<Rightarrow> autoupdatableBinary \<Rightarrow> 'c world \<Rightarrow> (string list \<times> string list) option" where
  "sortedVersionsInLibrary e binary s =
     (if \<not> Glob e (UpdatesDir binary) then None
      else
        (case classify e binary (library s binary) (map fst (library s binary)) of
           (versionsInLibrary, invalidVersions) \<Rightarrow>
             Some (map snd (sort_Sort e versionsInLibrary), invalidVersions)))"

definition numberOfVersionsToKeep :: nat where
  "numberOfVersionsToKeep = 3"

fun removeInvalid ::
  "('c, 'v) env \<Rightarrow> autoupdatableBinary \<Rightarrow> string list \<Rightarrow> 'c world \<Rightarrow> 'c world" where
  "removeInvalid e binary [] s = s"
| "removeInvalid e binary (invalidVersion # rest) s =
     removeInvalid e binary rest (removeUpdate e binary invalidVersion s)"

text \<open>
  The pruning loop walks the sorted versions from the last index down to zero; the model
  takes them in that order, with the counter \<^verbatim>\<open>nonCurrentlyRunningVersionsKept\<close>.
\<close>

fun pruneLoop ::
  "('c, 'v) env \<Rightarrow> autoupdatableBinary \<Rightarrow> string \<Rightarrow> string list \<Rightarrow> nat \<Rightarrow> 'c world \<Rightarrow> 'c world" where
  "pruneLoop e binary currentRunningVersion [] kept s = s"
| "pruneLoop e binary currentRunningVersion (v # older) kept s =
     (if v = currentRunningVersion
      then pruneLoop e binary currentRunningVersion older kept s
      else if kept \<ge> numberOfVersionsToKeep - 1
      then pruneLoop e binary currentRunningVersion older kept (removeUpdate e binary v s)
      else pruneLoop e binary currentRunningVersion older (kept + 1) s)"

definition tidyUpdateLibrary ::
  "('c, 'v) env \<Rightarrow> autoupdatableBinary \<Rightarrow> string \<Rightarrow> 'c world \<Rightarrow> 'c world" where
  "tidyUpdateLibrary e binary currentRunningVersion s =
     (if currentRunningVersion = [] then s
      else
        (case sortedVersionsInLibrary e binary s of
           None \<Rightarrow> s
         | Some (versionsInLibrary, invalidVersionsInLibrary) \<Rightarrow>
            (let s1 = removeInvalid e binary invalidVersionsInLibrary s
             in if length versionsInLibrary \<le> numberOfVersionsToKeep then s1
                else pruneLoop e binary currentRunningVersion (rev versionsInLibrary) 0 s1)))"

definition TidyLibrary ::
  "('c, 'v) env \<Rightarrow> autoupdatableBinary \<Rightarrow> string \<Rightarrow> 'c world \<Rightarrow> 'c world" where
  "TidyLibrary e binary currentVersion s =
     tidyUpdateLibrary e binary currentVersion (tidyStagedUpdates e binary s)"

subsection \<open>What the metadata says about a sequence of bytes\<close>

text \<open>
  The bytes \<open>bs\<close> hash to the digests of the metadata \<open>m\<close>: every algorithm that \<open>m\<close>
  lists is known, and gives the digest that \<open>m\<close> holds for it.
\<close>

definition hashesTo ::
  "(string \<Rightarrow> (byte list \<Rightarrow> byte list) option) \<Rightarrow> byte list \<Rightarrow> TargetFileMeta \<Rightarrow> bool" where
  "hashesTo h bs m =
     list_all (\<lambda>(a, d). case h a of None \<Rightarrow> False | Some f \<Rightarrow> f bs = d) (Hashes m)"

text \<open>
  \<^verbatim>\<open>sort.Sort\<close> promises a permutation in ascending order, and nothing about the order of
  versions that compare equal.
\<close>

definition sorts :: "(('v::linorder \<times> string) list \<Rightarrow> ('v \<times> string) list) \<Rightarrow> bool" where
  "sorts f = (\<forall>xs. mset (f xs) = mset xs \<and> sorted (map fst (f xs)))"

subsection \<open>What tidying keeps\<close>

text \<open>
  A version directory is valid when its name parses as a semantic version and its
  executable passes the probe: the test of \<open>classify\<close>.
\<close>

definition validVersion :: "('c, 'v) env \<Rightarrow> autoupdatableBinary \<Rightarrow> 'c world \<Rightarrow> string \<Rightarrow> bool" where
  "validVersion e binary s name =
     (NewVersion e name \<noteq> None \<and>
      (case map_of (library s binary) name of None \<Rightarrow> False | Some c \<Rightarrow> CheckExecutable e binary c))"

text \<open>
  The names that the pruning loop hands to \<open>removeUpdate\<close>, in the order of the walk.
\<close>

fun pruned :: "string \<Rightarrow> string list \<Rightarrow> nat \<Rightarrow> string list" where
  "pruned cur [] kept = []"
| "pruned cur (v # older) kept =
     (if v = cur then pruned cur older kept
      else if kept \<ge> numberOfVersionsToKeep - 1 then v # pruned cur older kept
      else pruned cur older (kept + 1))"

text \<open>
  The versions that survive pruning, for the sorted valid versions \<open>versions\<close>: all of
  them when there are at most three; otherwise the running version and the two most recent
  of the others.
\<close>

definition retained :: "string \<Rightarrow> string list \<Rightarrow> string set" where
  "retained currentRunningVersion versions =
     (if length versions \<le> numberOfVersionsToKeep then set versions
      else insert currentRunningVersion
             (set (take (numberOfVersionsToKeep - 1)
                    (filter (\<lambda>v. v \<noteq> currentRunningVersion) (rev versions)))))"

subsection \<open>An environment for the examples\<close>

text \<open>
  The examples run in an environment in which no file system call fails. Its version parser
  reads the numeric core \<^verbatim>\<open>MAJOR.MINOR.PATCH\<close> of a semantic version (three dot-separated
  decimal numbers, compared as a triple) and rejects every other name; its digest of a
  sequence of bytes is their number and their sum; a directory tree is the archive it was
  extracted from, and its executable runs when the archive starts with the byte 1.
\<close>

fun splitDots :: "string \<Rightarrow> string list" where
  "splitDots [] = [[]]"
| "splitDots (c # cs) =
     (if c = CHR ''.'' then [] # splitDots cs
      else (case splitDots cs of [] \<Rightarrow> [[c]] | w # ws \<Rightarrow> (c # w) # ws))"

definition digit :: "char \<Rightarrow> nat option" where
  "digit c = (if c \<in> set ''0123456789'' then Some (of_char c - 48) else None)"

fun number_from :: "nat \<Rightarrow> string \<Rightarrow> nat option" where
  "number_from n [] = Some n"
| "number_from n (c # cs) =
     (case digit c of None \<Rightarrow> None | Some d \<Rightarrow> number_from (10 * n + d) cs)"

definition number :: "string \<Rightarrow> nat option" where
  "number cs = (if cs = [] then None else number_from 0 cs)"

definition coreVersion :: "string \<Rightarrow> (nat \<times> nat \<times> nat) option" where
  "coreVersion name =
     (case map number (splitDots name) of
        [Some major, Some minor, Some patch] \<Rightarrow> Some (major, minor, patch)
      | _ \<Rightarrow> None)"

definition sumDigest :: "byte list \<Rightarrow> byte list" where
  "sumDigest bs = [of_nat (length bs), sum_list bs]"

definition runs :: "byte list \<Rightarrow> bool" where
  "runs tree = (case tree of [] \<Rightarrow> False | x # xs \<Rightarrow> x = 1)"

definition exampleEnv ::
  "(autoupdatableBinary \<Rightarrow> string \<Rightarrow> response option) \<Rightarrow> (byte list, nat \<times> nat \<times> nat) env" where
  "exampleEnv mirror =
     \<lparr>mirrorGet = mirror,
      hashOf = (\<lambda>a. if a = ''sha256'' then Some sumDigest else None),
      os_Create = (\<lambda>p. True),
      io_Copy = (\<lambda>p buf. None),
      out_Close = (\<lambda>p. True),
      os_MkdirAll = (\<lambda>p. True),
      emptyDir = [],
      UntarBundle = (\<lambda>c bs. (bs, True)),
      os_Chmod = (\<lambda>b c. Some c),
      CheckExecutable = (\<lambda>b c. runs c),
      os_Rename = (\<lambda>b v. True),
      os_RemoveAll = (\<lambda>p. True),
      Glob = (\<lambda>d. True),
      NewVersion = coreVersion,
      sort_Sort = sort_key fst\<rparr>"

definition emptyWorld :: "byte list world" where
  "emptyWorld = \<lparr>library = (\<lambda>b. []), staging = [], requests = 0\<rparr>"

text \<open>An environment without a mirror, and three libraries of the launcher.\<close>

definition noMirror :: "(byte list, nat \<times> nat \<times> nat) env" where
  "noMirror = exampleEnv (\<lambda>b t. None)"

definition fiveVersions :: "byte list world" where
  "fiveVersions =
     \<lparr>library = (\<lambda>b. if b = binaryLauncher
                     then [(''1.0.0'', [1]), (''1.1.0'', [1]), (''1.2.0'', [1]),
                           (''1.3.0'', [1]), (''1.4.0'', [1])]
                     else []),
      staging = [], requests = 0\<rparr>"

definition brokenRunning :: "byte list world" where
  "brokenRunning =
     \<lparr>library = (\<lambda>b. if b = binaryLauncher then [(''1.0.0'', [0])] else []),
      staging = [], requests = 0\<rparr>"

definition unparsedRunning :: "byte list world" where
  "unparsedRunning =
     \<lparr>library = (\<lambda>b. if b = binaryLauncher then [(''nightly'', [1])] else []),
      staging = [], requests = 0\<rparr>"

text \<open>
  A target of three bytes, a mirror that serves them followed by two more bytes, and a mirror
  that serves three other bytes.
\<close>

definition exampleMeta :: TargetFileMeta where
  "exampleMeta = \<lparr>Length = 3, Hashes = [(''sha256'', sumDigest [1, 2, 3])]\<rparr>"

definition honestMirror :: "(byte list, nat \<times> nat \<times> nat) env" where
  "honestMirror = exampleEnv (\<lambda>b t. Some (Response [1, 2, 3, 4, 5] False))"

definition tamperedMirror :: "(byte list, nat \<times> nat \<times> nat) env" where
  "tamperedMirror = exampleEnv (\<lambda>b t. Some (Response [1, 2, 4] False))"

text \<open>A state in which an archive of the other binary is staged.\<close>

definition staleStaging :: "byte list world" where
  "staleStaging =
     \<lparr>library = (\<lambda>b. []), staging = [(''osqueryd-5.0.0.tar.gz'', File [7])], requests = 0\<rparr>"

section \<open>Theorems\<close>

subsection \<open>What each operation leaves alone, and what it removes\<close>

lemma delete_filter: "AList.delete k al = filter (\<lambda>p. fst p \<noteq> k) al"
  by (induction al) auto

lemma removeStaged_library [simp]: "library (removeStaged e n s) = library s"
  by (simp add: removeStaged_def)

lemma removeStaged_requests [simp]: "requests (removeStaged e n s) = requests s"
  by (simp add: removeStaged_def)

lemma removeStaged_staging:
  "staging (removeStaged e n s) =
     filter (\<lambda>p. \<not> (fst p = n \<and> os_RemoveAll e (StagedPath n))) (staging s)"
  by (simp add: removeStaged_def delete_filter)

lemma removeMatches_library [simp]: "library (removeMatches e ms s) = library s"
  by (induction ms arbitrary: s) simp_all

lemma removeMatches_requests [simp]: "requests (removeMatches e ms s) = requests s"
  by (induction ms arbitrary: s) simp_all

lemma removeMatches_staging:
  "staging (removeMatches e ms s) =
     filter (\<lambda>p. \<not> (fst p \<in> set ms \<and> os_RemoveAll e (StagedPath (fst p)))) (staging s)"
proof (induction ms arbitrary: s)
  case Nil
  show ?case by simp
next
  case (Cons m ms)
  have "staging (removeMatches e (m # ms) s) =
      filter (\<lambda>p. \<not> (fst p \<in> set ms \<and> os_RemoveAll e (StagedPath (fst p))))
        (filter (\<lambda>p. \<not> (fst p = m \<and> os_RemoveAll e (StagedPath m))) (staging s))"
    by (simp add: Cons.IH removeStaged_staging)
  also have "\<dots> = filter (\<lambda>p. \<not> (fst p \<in> set (m # ms) \<and> os_RemoveAll e (StagedPath (fst p))))
        (staging s)"
    by (auto intro: filter_cong)
  finally show ?case .
qed


lemma tidyStagedUpdates_library [simp]: "library (tidyStagedUpdates e b s) = library s"
  by (simp add: tidyStagedUpdates_def)

lemma tidyStagedUpdates_requests [simp]: "requests (tidyStagedUpdates e b s) = requests s"
  by (simp add: tidyStagedUpdates_def)

lemma tidyStagedUpdates_staging:
  "staging (tidyStagedUpdates e b s) =
     (if Glob e StagingDir
      then filter (\<lambda>p. \<not> os_RemoveAll e (StagedPath (fst p))) (staging s)
      else staging s)"
  by (auto simp add: tidyStagedUpdates_def removeMatches_staging intro: filter_cong)

lemma tidyStagedUpdates_binary: "tidyStagedUpdates e b s = tidyStagedUpdates e b' s"
  by (simp add: tidyStagedUpdates_def)

lemma removeUpdate_staging [simp]: "staging (removeUpdate e b v s) = staging s"
  by (simp add: removeUpdate_def)

lemma removeUpdate_requests [simp]: "requests (removeUpdate e b v s) = requests s"
  by (simp add: removeUpdate_def)

lemma removeInvalid_staging [simp]: "staging (removeInvalid e b vs s) = staging s"
  by (induction vs arbitrary: s) simp_all

lemma removeInvalid_requests [simp]: "requests (removeInvalid e b vs s) = requests s"
  by (induction vs arbitrary: s) simp_all

lemma pruneLoop_staging [simp]: "staging (pruneLoop e b cur vs k s) = staging s"
  by (induction e b cur vs k s rule: pruneLoop.induct) simp_all

lemma pruneLoop_requests [simp]: "requests (pruneLoop e b cur vs k s) = requests s"
  by (induction e b cur vs k s rule: pruneLoop.induct) simp_all

lemma tidyUpdateLibrary_staging [simp]: "staging (tidyUpdateLibrary e b cur s) = staging s"
  by (simp add: tidyUpdateLibrary_def Let_def split: option.splits prod.splits)

lemma tidyUpdateLibrary_requests [simp]: "requests (tidyUpdateLibrary e b cur s) = requests s"
  by (simp add: tidyUpdateLibrary_def Let_def split: option.splits prod.splits)

lemma tidyUpdateLibrary_empty: "tidyUpdateLibrary e b [] s = s"
  by (simp add: tidyUpdateLibrary_def)


lemma removeUpdate_library:
  "library (removeUpdate e b v s) b' =
     (if b' = b then filter (\<lambda>p. \<not> (fst p = v \<and> os_RemoveAll e (LibraryPath b v))) (library s b)
      else library s b')"
  by (simp add: removeUpdate_def delete_filter)


lemma removeInvalid_library:
  "library (removeInvalid e b vs s) b' =
     (if b' = b
      then filter (\<lambda>p. \<not> (fst p \<in> set vs \<and> os_RemoveAll e (LibraryPath b (fst p)))) (library s b)
      else library s b')"
proof (induction vs arbitrary: s)
  case Nil
  show ?case by simp
next
  case (Cons v vs)
  show ?case
    by (auto simp add: Cons.IH removeUpdate_library intro: filter_cong)
qed

lemma pruneLoop_removeInvalid:
  "pruneLoop e b cur vs k s = removeInvalid e b (pruned cur vs k) s"
  by (induction e b cur vs k s rule: pruneLoop.induct) simp_all

lemma pruned_drop:
  "pruned cur vs k = drop (numberOfVersionsToKeep - 1 - k) (filter (\<lambda>v. v \<noteq> cur) vs)"
proof (induction cur vs k rule: pruned.induct)
  case (1 cur kept)
  show ?case by simp
next
  case (2 cur v older kept)
  then show ?case
    by (auto simp add: numberOfVersionsToKeep_def Suc_diff_le drop_Cons' )
qed



lemma classify_eq:
  "classify e b lib names =
     (map (\<lambda>n. (the (NewVersion e n), n))
        (filter (\<lambda>n. NewVersion e n \<noteq> None \<and>
                  (case map_of lib n of None \<Rightarrow> False | Some c \<Rightarrow> CheckExecutable e b c)) names),
      filter (\<lambda>n. \<not> (NewVersion e n \<noteq> None \<and>
                  (case map_of lib n of None \<Rightarrow> False | Some c \<Rightarrow> CheckExecutable e b c))) names)"
  by (induction names) (auto split: option.splits)

lemma sortedVersionsInLibrary_eq:
  "sortedVersionsInLibrary e b s =
     (if Glob e (UpdatesDir b)
      then Some (map snd (sort_Sort e (map (\<lambda>n. (the (NewVersion e n), n))
                   (filter (validVersion e b s) (map fst (library s b))))),
                 filter (\<lambda>n. \<not> validVersion e b s n) (map fst (library s b)))
      else None)"
  unfolding sortedVersionsInLibrary_def classify_eq validVersion_def by simp

lemma sortedVersionsInLibrary_tidyStaged [simp]:
  "sortedVersionsInLibrary e b (tidyStagedUpdates e b' s) = sortedVersionsInLibrary e b s"
  by (simp add: sortedVersionsInLibrary_def)

lemma sorts_names:
  assumes "sorts f"
  shows "mset (map snd (f (map (\<lambda>n. (k n, n)) ns))) = mset ns"
proof -
  have "mset (f (map (\<lambda>n. (k n, n)) ns)) = mset (map (\<lambda>n. (k n, n)) ns)"
    using assms by (simp add: sorts_def)
  then have "image_mset snd (mset (f (map (\<lambda>n. (k n, n)) ns))) =
      image_mset snd (mset (map (\<lambda>n. (k n, n)) ns))"
    by simp
  then show ?thesis
    by (simp add: image_mset.compositionality comp_def)
qed

lemma sorts_sorted:
  assumes "sorts f"
  shows "sorted (map k (map snd (f (map (\<lambda>n. (k n, n)) ns))))"
proof -
  let ?out = "f (map (\<lambda>n. (k n, n)) ns)"
  have "set ?out = set (map (\<lambda>n. (k n, n)) ns)"
    using assms by (metis sorts_def set_mset_mset)
  then have "\<forall>p \<in> set ?out. fst p = k (snd p)"
    by auto
  then have "map k (map snd ?out) = map fst ?out"
    by simp
  moreover have "sorted (map fst ?out)"
    using assms by (simp add: sorts_def)
  ultimately show ?thesis by (simp only:)
qed

lemma filter_all: "list_all P xs \<Longrightarrow> filter P xs = xs"
  by (induction xs) simp_all

lemma filter_none: "list_all P xs \<Longrightarrow> filter (\<lambda>x. \<not> P x) xs = []"
  by (induction xs) simp_all

lemma kept_or_dropped:
  assumes "distinct vs" and "n \<in> set vs"
  shows "n \<notin> set (drop j (filter (\<lambda>v. v \<noteq> cur) vs)) \<longleftrightarrow>
         n = cur \<or> n \<in> set (take j (filter (\<lambda>v. v \<noteq> cur) vs))"
proof -
  define F where "F = filter (\<lambda>v. v \<noteq> cur) vs"
  have d: "distinct F" using assms(1) by (simp add: F_def)
  have "distinct (take j F @ drop j F)" using d by simp
  then have disj: "set (take j F) \<inter> set (drop j F) = {}"
    by (simp only: distinct_append)
  have "set F = set (take j F @ drop j F)" by simp
  then have un: "set F = set (take j F) \<union> set (drop j F)"
    by (simp only: set_append)
  have mem: "n \<in> set F \<longleftrightarrow> n \<noteq> cur"
    using assms(2) by (simp add: F_def)
  have "n \<notin> set (drop j F) \<longleftrightarrow> n = cur \<or> n \<in> set (take j F)"
    using disj un mem by blast
  then show ?thesis by (simp only: F_def)
qed


lemma tidyUpdateLibrary_other:
  "b' \<noteq> b \<Longrightarrow> library (tidyUpdateLibrary e b cur s) b' = library s b'"
  by (simp add: tidyUpdateLibrary_def Let_def pruneLoop_removeInvalid removeInvalid_library
      split: option.splits prod.splits)

lemma sorts_sort_key: "sorts (sort_key fst)"
  by (simp add: sorts_def)

lemma retained_count:
  assumes d: "distinct (map fst lib)"
    and ms: "mset vs = mset (map fst lib)"
    and long: "numberOfVersionsToKeep < length vs"
  shows "length (filter (\<lambda>p. fst p \<in> retained cur vs) lib) =
           (if cur \<in> set vs then 3 else 2)"
proof -
  define F where "F = filter (\<lambda>v. v \<noteq> cur) (rev vs)"
  have dv: "distinct vs"
    using d mset_eq_imp_distinct_iff[OF ms] by simp
  have setvs: "set vs = set (map fst lib)"
    using ms by (rule mset_eq_setD)
  have dF: "distinct F" using dv by (simp add: F_def)
  have lenF: "2 \<le> length F"
  proof -
    have "length (rev vs) = length F + length (filter (\<lambda>v. \<not> v \<noteq> cur) (rev vs))"
      unfolding F_def by (rule sum_length_filter_compl[symmetric])
    moreover have "length (filter (\<lambda>v. \<not> v \<noteq> cur) (rev vs)) \<le> 1"
    proof -
      have "distinct (filter (\<lambda>v. \<not> v \<noteq> cur) (rev vs))" using dv by simp
      moreover have "set (filter (\<lambda>v. \<not> v \<noteq> cur) (rev vs)) \<subseteq> {cur}" by auto
      ultimately have "length (filter (\<lambda>v. \<not> v \<noteq> cur) (rev vs)) \<le> card {cur}"
        by (metis distinct_card card_mono finite.emptyI finite.insertI)
      then show ?thesis by simp
    qed
    ultimately show ?thesis using long by (simp add: numberOfVersionsToKeep_def)
  qed
  have c2: "card (set (take 2 F)) = 2"
    using dF lenF by (simp add: distinct_card)
  have notin: "cur \<notin> set (take 2 F)"
    using in_set_takeD[of cur 2 F] by (auto simp add: F_def)
  have sub: "set (take 2 F) \<subseteq> set vs"
    using set_take_subset[of 2 F] by (auto simp add: F_def)
  have R: "retained cur vs = insert cur (set (take 2 F))"
    using long by (simp add: retained_def F_def numberOfVersionsToKeep_def)
  have "length (filter (\<lambda>p. fst p \<in> retained cur vs) lib) =
      length (filter (\<lambda>n. n \<in> retained cur vs) (map fst lib))"
    by (simp add: filter_map comp_def)
  also have "\<dots> = card ({n. n \<in> retained cur vs} \<inter> set (map fst lib))"
    using d by (rule distinct_length_filter)
  also have "\<dots> = card (insert cur (set (take 2 F)) \<inter> set vs)"
    by (simp only: R setvs Collect_mem_eq)
  also have "\<dots> = (if cur \<in> set vs then 3 else 2)"
  proof (cases "cur \<in> set vs")
    case True
    then have "insert cur (set (take 2 F)) \<inter> set vs = insert cur (set (take 2 F))"
      using sub by blast
    then show ?thesis using True c2 notin by simp
  next
    case False
    then have "insert cur (set (take 2 F)) \<inter> set vs = set (take 2 F)"
      using sub by blast
    then show ?thesis using False c2 by simp
  qed
  finally show ?thesis .
qed

subsection \<open>Tidying the library\<close>

text \<open>
  Claim C9. Without a running version, \<^verbatim>\<open>TidyLibrary\<close> purges the staging directory and
  leaves the update library of every binary as it is, in every state and environment: the
  staged entries that remain are those that \<^verbatim>\<open>os.RemoveAll\<close> could not remove (all of
  them when the glob fails).
\<close>

theorem TidyLibrary_empty_version:
  "library (TidyLibrary e binary [] s) = library s \<and>
   staging (TidyLibrary e binary [] s) =
     (if Glob e StagingDir
      then filter (\<lambda>p. \<not> os_RemoveAll e (StagedPath (fst p))) (staging s)
      else staging s) \<and>
   requests (TidyLibrary e binary [] s) = requests s"
  by (simp add: TidyLibrary_def tidyUpdateLibrary_empty tidyStagedUpdates_staging)

text \<open>
  Claim C2, at two failing inputs. The only version directory of the launcher is the one of
  the running version, and \<^verbatim>\<open>TidyLibrary\<close> removes it: in the first library its executable
  fails the probe, in the second its name is not a semantic version. The loop over the
  invalid versions calls \<^verbatim>\<open>removeUpdate\<close> without the comparison with the running version
  that the pruning loop makes.
\<close>

theorem TidyLibrary_removes_running_version:
  "library (TidyLibrary noMirror binaryLauncher ''1.0.0'' brokenRunning) binaryLauncher = [] \<and>
   library (TidyLibrary noMirror binaryLauncher ''nightly'' unparsedRunning) binaryLauncher = []"
  by code_simp

text \<open>
  Claim C1, as stated, fails: of five valid versions with the oldest one running, the third
  most recent (\<^verbatim>\<open>1.2.0\<close>) is removed and three directories remain, not four.
\<close>

theorem TidyLibrary_keeps_three_of_five:
  "map fst (library (TidyLibrary noMirror binaryLauncher ''1.0.0'' fiveVersions) binaryLauncher)
     = [''1.0.0'', ''1.3.0'', ''1.4.0'']"
  by code_simp

text \<open>
  Claim C1, amended. When every version directory of the binary is valid and every removal
  succeeds, \<^verbatim>\<open>TidyLibrary\<close> with a running version keeps every directory if there are at
  most three, and otherwise keeps exactly the running version and the two most recent of
  the other versions: three directories when the running version is in the library, two
  when it is not. \<open>versions\<close> is the list that \<^verbatim>\<open>sortedVersionsInLibrary\<close> returns: the
  names of the library in ascending order of their versions. The libraries of the other
  binaries are left alone.
\<close>

theorem TidyLibrary_retention:
  assumes glob: "Glob e (UpdatesDir binary)"
    and sorting: "sorts (sort_Sort e)"
    and valid: "list_all (validVersion e binary s) (map fst (library s binary))"
    and removable:
      "list_all (\<lambda>n. os_RemoveAll e (LibraryPath binary n)) (map fst (library s binary))"
    and names: "distinct (map fst (library s binary))"
    and running: "currentRunningVersion \<noteq> []"
  shows "\<exists>versions.
           sortedVersionsInLibrary e binary s = Some (versions, []) \<and>
           mset versions = mset (map fst (library s binary)) \<and>
           sorted (map (\<lambda>n. the (NewVersion e n)) versions) \<and>
           library (TidyLibrary e binary currentRunningVersion s) binary =
             filter (\<lambda>p. fst p \<in> retained currentRunningVersion versions) (library s binary) \<and>
           (numberOfVersionsToKeep < length versions \<longrightarrow>
              length (library (TidyLibrary e binary currentRunningVersion s) binary) =
                (if currentRunningVersion \<in> set versions then 3 else 2)) \<and>
           (\<forall>b'. b' \<noteq> binary \<longrightarrow>
              library (TidyLibrary e binary currentRunningVersion s) b' = library s b')"
proof -
  let ?names = "map fst (library s binary)"
  let ?k = "\<lambda>n. the (NewVersion e n)"
  let ?vs = "map snd (sort_Sort e (map (\<lambda>n. (?k n, n)) ?names))"
  let ?cur = currentRunningVersion
  have sv: "sortedVersionsInLibrary e binary s = Some (?vs, [])"
    using glob valid by (simp add: sortedVersionsInLibrary_eq filter_all filter_none)
  have ms: "mset ?vs = mset ?names"
    using sorting by (rule sorts_names)
  have so: "sorted (map ?k ?vs)"
    using sorting by (rule sorts_sorted)
  have setvs: "set ?vs = set ?names"
    using ms by (rule mset_eq_setD)
  have "distinct ?vs = distinct ?names"
    using ms by (rule mset_eq_imp_distinct_iff)
  then have dvs: "distinct (rev ?vs)"
    using names by simp
  have rm: "\<And>p. p \<in> set (library s binary) \<Longrightarrow> os_RemoveAll e (LibraryPath binary (fst p))"
    using removable by (auto simp add: list_all_iff)
  have mem: "\<And>p. p \<in> set (library s binary) \<Longrightarrow> fst p \<in> set (rev ?vs)"
    using setvs by auto
  have lib: "library (TidyLibrary e binary ?cur s) binary =
      filter (\<lambda>p. fst p \<in> retained ?cur ?vs) (library s binary)"
  proof (cases "length ?vs \<le> numberOfVersionsToKeep")
    case True
    have "filter (\<lambda>p. fst p \<in> set ?vs) (library s binary) = library s binary"
      using setvs by (intro filter_True) auto
    with True show ?thesis
      using running sv by (simp add: TidyLibrary_def tidyUpdateLibrary_def retained_def)
  next
    case False
    have "library (TidyLibrary e binary ?cur s) binary =
        filter (\<lambda>p. \<not> (fst p \<in> set (drop (numberOfVersionsToKeep - 1)
                                      (filter (\<lambda>v. v \<noteq> ?cur) (rev ?vs)))
                        \<and> os_RemoveAll e (LibraryPath binary (fst p))))
          (library s binary)"
      using False running sv
      by (simp add: TidyLibrary_def tidyUpdateLibrary_def pruneLoop_removeInvalid
          removeInvalid_library pruned_drop)
    also have "\<dots> = filter (\<lambda>p. fst p \<in> retained ?cur ?vs) (library s binary)"
    proof (rule filter_cong[OF refl])
      fix p assume p: "p \<in> set (library s binary)"
      show "(\<not> (fst p \<in> set (drop (numberOfVersionsToKeep - 1)
                                      (filter (\<lambda>v. v \<noteq> ?cur) (rev ?vs)))
                        \<and> os_RemoveAll e (LibraryPath binary (fst p)))) =
            (fst p \<in> retained ?cur ?vs)"
        using False rm[OF p] kept_or_dropped[OF dvs mem[OF p], of "numberOfVersionsToKeep - 1" ?cur]
        by (simp add: retained_def)
    qed
    finally show ?thesis .
  qed
  have count: "numberOfVersionsToKeep < length ?vs \<longrightarrow>
      length (library (TidyLibrary e binary ?cur s) binary) =
        (if ?cur \<in> set ?vs then 3 else 2)"
    using retained_count[OF names ms] lib by simp
  have other: "\<forall>b'. b' \<noteq> binary \<longrightarrow>
      library (TidyLibrary e binary ?cur s) b' = library s b'"
    by (simp add: TidyLibrary_def tidyUpdateLibrary_other)
  from sv ms so lib count other show ?thesis by blast
qed


theorem TidyLibrary_retention_witness:
  "Glob noMirror (UpdatesDir binaryLauncher) \<and>
   sorts (sort_Sort noMirror) \<and>
   list_all (validVersion noMirror binaryLauncher fiveVersions)
     (map fst (library fiveVersions binaryLauncher)) \<and>
   list_all (\<lambda>n. os_RemoveAll noMirror (LibraryPath binaryLauncher n))
     (map fst (library fiveVersions binaryLauncher)) \<and>
   distinct (map fst (library fiveVersions binaryLauncher)) \<and>
   (\<exists>versions.
      sortedVersionsInLibrary noMirror binaryLauncher fiveVersions = Some (versions, []) \<and>
      mset versions = mset (map fst (library fiveVersions binaryLauncher)) \<and>
      sorted (map (\<lambda>n. the (NewVersion noMirror n)) versions) \<and>
      library (TidyLibrary noMirror binaryLauncher ''1.3.0'' fiveVersions) binaryLauncher =
        filter (\<lambda>p. fst p \<in> retained ''1.3.0'' versions) (library fiveVersions binaryLauncher) \<and>
      (numberOfVersionsToKeep < length versions \<longrightarrow>
         length (library (TidyLibrary noMirror binaryLauncher ''1.3.0'' fiveVersions)
                   binaryLauncher) =
           (if ''1.3.0'' \<in> set versions then 3 else 2)) \<and>
      (\<forall>b'. b' \<noteq> binaryLauncher \<longrightarrow>
         library (TidyLibrary noMirror binaryLauncher ''1.3.0'' fiveVersions) b' =
           library fiveVersions b'))"
proof -
  have g: "Glob noMirror (UpdatesDir binaryLauncher)"
    by (simp add: noMirror_def exampleEnv_def)
  have so: "sorts (sort_Sort noMirror)"
    by (simp add: noMirror_def exampleEnv_def sorts_sort_key)
  have v: "list_all (validVersion noMirror binaryLauncher fiveVersions)
      (map fst (library fiveVersions binaryLauncher))"
    by code_simp
  have r: "list_all (\<lambda>n. os_RemoveAll noMirror (LibraryPath binaryLauncher n))
      (map fst (library fiveVersions binaryLauncher))"
    by code_simp
  have d: "distinct (map fst (library fiveVersions binaryLauncher))"
    by code_simp
  have n: "''1.3.0'' \<noteq> []"
    by simp
  show ?thesis
    using TidyLibrary_retention[OF g so v r d n] g so v r d by simp
qed

subsection \<open>Adding to the library\<close>

lemma writeStaged_library [simp]: "library (writeStaged n x s) = library s"
  by (simp add: writeStaged_def)

lemma writeStaged_requests [simp]: "requests (writeStaged n x s) = requests s"
  by (simp add: writeStaged_def)

lemma writeStaged_staging [simp]: "staging (writeStaged n x s) = AList.update n x (staging s)"
  by (simp add: writeStaged_def)

lemma stageAndVerifyUpdate_library [simp]:
  "library (snd (stageAndVerifyUpdate e b t m s)) = library s"
  by (simp add: stageAndVerifyUpdate_def Let_def split: option.splits prod.splits)

lemma stageAndVerifyUpdate_requests [simp]:
  "requests (snd (stageAndVerifyUpdate e b t m s)) = requests s + 1"
  by (simp add: stageAndVerifyUpdate_def Let_def split: option.splits prod.splits)

lemma moveVerifiedUpdate_requests [simp]:
  "requests (snd (moveVerifiedUpdate e b t p s)) = requests s"
  by (simp add: moveVerifiedUpdate_def Let_def split: option.splits prod.splits staged.splits)

lemma moveVerifiedUpdate_library:
  "moveVerifiedUpdate e b t p s = (r, s') \<Longrightarrow>
     (r \<noteq> None \<and> library s' = library s) \<or>
     (r = None \<and>
      (\<exists>c. CheckExecutable e b c \<and> os_Rename e b (versionFromTarget b t) \<and>
           library s' = (library s)(b := AList.update (versionFromTarget b t) c (library s b))))"
  unfolding moveVerifiedUpdate_def Let_def
  by (auto split: option.splits prod.splits staged.splits if_splits)


lemma AddToLibrary_early:
  "currentVersion = versionFromTarget b t \<or> Available e s b t \<Longrightarrow>
     AddToLibrary e b currentVersion t m s = (None, s)"
  by (auto simp add: AddToLibrary_def)

lemma AddToLibrary_stage_failed:
  assumes "\<not> (currentVersion = versionFromTarget b t \<or> Available e s b t)"
    and "stageAndVerifyUpdate e b t m s = (Inl err, s1)"
  shows "AddToLibrary e b currentVersion t m s =
           (Some (CouldNotStage err), tidyStagedUpdates e b s1)"
  using assms by (simp add: AddToLibrary_def)

lemma AddToLibrary_moved:
  assumes "\<not> (currentVersion = versionFromTarget b t \<or> Available e s b t)"
    and "stageAndVerifyUpdate e b t m s = (Inr p, s1)"
    and "moveVerifiedUpdate e b t p s1 = (r2, s2)"
  shows "AddToLibrary e b currentVersion t m s =
           (map_option CouldNotMove r2, tidyStagedUpdates e b s2)"
  using assms by (cases r2) (simp_all add: AddToLibrary_def)

lemma AddToLibrary_requests:
  "requests (snd (AddToLibrary e b currentVersion t m s)) =
     (if currentVersion = versionFromTarget b t \<or> Available e s b t then requests s
      else requests s + 1)"
proof (cases "currentVersion = versionFromTarget b t \<or> Available e s b t")
  case True
  then show ?thesis by (simp add: AddToLibrary_early)
next
  case False
  obtain r1 s1 where st: "stageAndVerifyUpdate e b t m s = (r1, s1)"
    by (cases "stageAndVerifyUpdate e b t m s")
  have r1: "requests s1 = requests s + 1"
    using stageAndVerifyUpdate_requests[of e b t m s] st by simp
  show ?thesis
  proof (cases r1)
    case (Inl err)
    with st have "stageAndVerifyUpdate e b t m s = (Inl err, s1)" by simp
    from AddToLibrary_stage_failed[OF False this] show ?thesis
      using False r1 by simp
  next
    case (Inr p)
    with st have st': "stageAndVerifyUpdate e b t m s = (Inr p, s1)" by simp
    obtain r2 s2 where mv: "moveVerifiedUpdate e b t p s1 = (r2, s2)"
      by (cases "moveVerifiedUpdate e b t p s1")
    have "requests s2 = requests s1"
      using moveVerifiedUpdate_requests[of e b t p s1] mv by simp
    with AddToLibrary_moved[OF False st' mv] show ?thesis
      using False r1 by simp
  qed
qed

lemma AddToLibrary_cases:
  assumes "AddToLibrary e b currentVersion t m s = (r, s')"
  shows "((currentVersion = versionFromTarget b t \<or> Available e s b t) \<and> r = None \<and> s' = s) \<or>
         (\<not> (currentVersion = versionFromTarget b t \<or> Available e s b t) \<and>
          r \<noteq> None \<and> library s' = library s) \<or>
         (\<not> (currentVersion = versionFromTarget b t \<or> Available e s b t) \<and> r = None \<and>
          (\<exists>c. CheckExecutable e b c \<and> os_Rename e b (versionFromTarget b t) \<and>
               library s' = (library s)(b := AList.update (versionFromTarget b t) c (library s b))))"
proof (cases "currentVersion = versionFromTarget b t \<or> Available e s b t")
  case True
  from AddToLibrary_early[OF True, of m] assms have "r = None \<and> s' = s" by simp
  then show ?thesis using True by simp
next
  case False
  obtain r1 s1 where st: "stageAndVerifyUpdate e b t m s = (r1, s1)"
    by (cases "stageAndVerifyUpdate e b t m s")
  have l1: "library s1 = library s"
    using stageAndVerifyUpdate_library[of e b t m s] st by simp
  show ?thesis
  proof (cases r1)
    case (Inl err)
    with st have "stageAndVerifyUpdate e b t m s = (Inl err, s1)" by simp
    from AddToLibrary_stage_failed[OF False this] assms
    have "s' = tidyStagedUpdates e b s1" and "r \<noteq> None" by simp_all
    then show ?thesis using l1 False by simp
  next
    case (Inr p)
    with st have st': "stageAndVerifyUpdate e b t m s = (Inr p, s1)" by simp
    obtain r2 s2 where mv: "moveVerifiedUpdate e b t p s1 = (r2, s2)"
      by (cases "moveVerifiedUpdate e b t p s1")
    from AddToLibrary_moved[OF False st' mv] assms
    have s': "s' = tidyStagedUpdates e b s2" and r: "r = map_option CouldNotMove r2"
      by simp_all
    have ls': "library s' = library s2" using s' by simp
    from moveVerifiedUpdate_library[OF mv] show ?thesis
    proof
      assume "r2 \<noteq> None \<and> library s2 = library s1"
      then have "r \<noteq> None \<and> library s' = library s" using ls' l1 r by simp
      then show ?thesis using False by blast
    next
      assume "r2 = None \<and>
        (\<exists>c. CheckExecutable e b c \<and> os_Rename e b (versionFromTarget b t) \<and>
           library s2 = (library s1)(b := AList.update (versionFromTarget b t) c (library s1 b)))"
      then have "r = None \<and>
        (\<exists>c. CheckExecutable e b c \<and> os_Rename e b (versionFromTarget b t) \<and>
           library s' = (library s)(b := AList.update (versionFromTarget b t) c (library s b)))"
        using ls' l1 r by simp
      then show ?thesis using False by blast
    qed
  qed
qed

lemma Available_after_install:
  assumes "CheckExecutable e b c"
    and "library s' = (library s)(b := AList.update (versionFromTarget b t) c (library s b))"
  shows "Available e s' b t"
  using assms by (simp add: Available_def update_conv')

lemma Available_library:
  "library s' = library s \<Longrightarrow> Available e s' b t = Available e s b t"
  by (simp add: Available_def)

text \<open>
  Claim C4. Whatever \<^verbatim>\<open>AddToLibrary\<close> returns, the update library is either as it was,
  or the call succeeded and the library differs by one version directory, the one of the
  target's version, put there by a rename that succeeded and holding a tree on which the
  liveness probe succeeded just before. A call that returns an error leaves the library as
  it was.
\<close>

theorem AddToLibrary_installs_only_probed:
  assumes "AddToLibrary e binary currentVersion targetFilename targetMetadata s = (r, s')"
  shows "(library s' = library s \<or>
          (r = None \<and>
           (\<exists>c. CheckExecutable e binary c \<and>
                os_Rename e binary (versionFromTarget binary targetFilename) \<and>
                library s' = (library s)
                  (binary := AList.update (versionFromTarget binary targetFilename) c
                               (library s binary))))) \<and>
         (r \<noteq> None \<longrightarrow> library s' = library s)"
  using AddToLibrary_cases[OF assms] by blast

theorem AddToLibrary_installs_only_probed_witness:
  "fst (AddToLibrary honestMirror binaryLauncher ''1.0.0'' ''launcher-1.2.0.tar.gz'' exampleMeta
          emptyWorld) = None \<and>
   library emptyWorld binaryLauncher = [] \<and>
   library (snd (AddToLibrary honestMirror binaryLauncher ''1.0.0'' ''launcher-1.2.0.tar.gz''
                   exampleMeta emptyWorld)) binaryLauncher = [(''1.2.0'', [1, 2, 3])] \<and>
   (\<exists>c. CheckExecutable honestMirror binaryLauncher c \<and>
        os_Rename honestMirror binaryLauncher
          (versionFromTarget binaryLauncher ''launcher-1.2.0.tar.gz'') \<and>
        library (snd (AddToLibrary honestMirror binaryLauncher ''1.0.0''
                        ''launcher-1.2.0.tar.gz'' exampleMeta emptyWorld))
          = (library emptyWorld)
              (binaryLauncher :=
                 AList.update (versionFromTarget binaryLauncher ''launcher-1.2.0.tar.gz'') c
                   (library emptyWorld binaryLauncher)))"
proof -
  let ?A = "AddToLibrary honestMirror binaryLauncher ''1.0.0'' ''launcher-1.2.0.tar.gz''
      exampleMeta emptyWorld"
  have run: "?A = (fst ?A, snd ?A)"
    by simp
  have ok: "fst ?A = None"
    by code_simp
  have before: "library emptyWorld binaryLauncher = []"
    by code_simp
  have after: "library (snd ?A) binaryLauncher = [(''1.2.0'', [1, 2, 3])]"
    by code_simp
  have changed: "library (snd ?A) \<noteq> library emptyWorld"
    using before after by auto
  show ?thesis
    using AddToLibrary_installs_only_probed[OF run] ok before after changed by blast
qed

text \<open>
  Claim C5, as stated, fails: when the mirror serves bytes that do not verify, each of two
  calls in succession sends a request to the mirror, two downloads in all; and when the
  current version is the target's version, the two calls send none.
\<close>

theorem AddToLibrary_twice_downloads_twice:
  "requests (snd (AddToLibrary tamperedMirror binaryLauncher ''1.0.0'' ''launcher-1.2.0.tar.gz''
       exampleMeta
       (snd (AddToLibrary tamperedMirror binaryLauncher ''1.0.0'' ''launcher-1.2.0.tar.gz''
          exampleMeta emptyWorld)))) = 2 \<and>
   requests (snd (AddToLibrary tamperedMirror binaryLauncher ''1.2.0'' ''launcher-1.2.0.tar.gz''
       exampleMeta
       (snd (AddToLibrary tamperedMirror binaryLauncher ''1.2.0'' ''launcher-1.2.0.tar.gz''
          exampleMeta emptyWorld)))) = 0"
  by code_simp

text \<open>
  Claim C5, amended. \<^verbatim>\<open>AddToLibrary\<close> returns success without a download and without any
  change when the current version is the target's version or the target is available. A
  call sends at most one request to the mirror. After a call that succeeded, a second call
  with the same arguments succeeds again, sends no request and changes nothing: the two
  calls behave as the single one, with at most one download. After a call that failed, the
  second call downloads again: two downloads in all. (The liveness probe is a function of
  the installed tree here: it gives the same answer at the second call.)
\<close>

theorem AddToLibrary_twice:
  assumes first: "AddToLibrary e binary currentVersion targetFilename targetMetadata s = (r1, s1)"
  shows "(currentVersion = versionFromTarget binary targetFilename \<or>
            Available e s binary targetFilename \<longrightarrow>
            r1 = None \<and> s1 = s) \<and>
         (r1 = None \<longrightarrow>
            AddToLibrary e binary currentVersion targetFilename targetMetadata s1 = (None, s1)) \<and>
         (r1 \<noteq> None \<longrightarrow>
            requests s1 = requests s + 1 \<and>
            requests (snd (AddToLibrary e binary currentVersion targetFilename targetMetadata s1))
              = requests s + 2) \<and>
         requests s1 \<le> requests s + 1"
proof -
  define early where "early = (\<lambda>s. currentVersion = versionFromTarget binary targetFilename \<or>
            Available e s binary targetFilename)"
  have req: "\<And>s. requests (snd (AddToLibrary e binary currentVersion targetFilename targetMetadata s))
      = (if early s then requests s else requests s + 1)"
    unfolding early_def by (rule AddToLibrary_requests)
  have req1: "requests s1 = (if early s then requests s else requests s + 1)"
    using req[of s] first by simp
  have cases3: "(early s \<and> r1 = None \<and> s1 = s) \<or>
      (\<not> early s \<and> r1 \<noteq> None \<and> library s1 = library s) \<or>
      (\<not> early s \<and> r1 = None \<and>
        (\<exists>c. CheckExecutable e binary c \<and>
           library s1 = (library s)(binary :=
              AList.update (versionFromTarget binary targetFilename) c (library s binary))))"
    unfolding early_def using AddToLibrary_cases[OF first] by blast
  have a: "early s \<longrightarrow> r1 = None \<and> s1 = s"
    using cases3 by blast
  have b: "r1 = None \<longrightarrow>
      AddToLibrary e binary currentVersion targetFilename targetMetadata s1 = (None, s1)"
  proof
    assume ok: "r1 = None"
    have "early s1"
    proof (cases "early s")
      case True
      then show ?thesis using a by simp
    next
      case False
      with cases3 ok obtain c where "CheckExecutable e binary c"
        "library s1 = (library s)(binary :=
              AList.update (versionFromTarget binary targetFilename) c (library s binary))"
        by blast
      then have "Available e s1 binary targetFilename"
        by (rule Available_after_install)
      then show ?thesis by (simp add: early_def)
    qed
    then show "AddToLibrary e binary currentVersion targetFilename targetMetadata s1 = (None, s1)"
      unfolding early_def by (rule AddToLibrary_early)
  qed
  have c: "r1 \<noteq> None \<longrightarrow>
            requests s1 = requests s + 1 \<and>
            requests (snd (AddToLibrary e binary currentVersion targetFilename targetMetadata s1))
              = requests s + 2"
  proof
    assume bad: "r1 \<noteq> None"
    with cases3 have ne: "\<not> early s" and same: "library s1 = library s" by blast+
    have "Available e s1 binary targetFilename = Available e s binary targetFilename"
      using same by (rule Available_library)
    then have ne1: "\<not> early s1" using ne by (simp add: early_def)
    show "requests s1 = requests s + 1 \<and>
            requests (snd (AddToLibrary e binary currentVersion targetFilename targetMetadata s1))
              = requests s + 2"
      using req1 ne req[of s1] ne1 by simp
  qed
  have d: "requests s1 \<le> requests s + 1" using req1 by simp
  from a b c d show ?thesis unfolding early_def by blast
qed

theorem AddToLibrary_twice_witness:
  "fst (AddToLibrary honestMirror binaryLauncher ''1.0.0'' ''launcher-1.2.0.tar.gz'' exampleMeta
          emptyWorld) = None \<and>
   requests (snd (AddToLibrary honestMirror binaryLauncher ''1.0.0'' ''launcher-1.2.0.tar.gz''
                    exampleMeta emptyWorld)) = 1 \<and>
   AddToLibrary honestMirror binaryLauncher ''1.0.0'' ''launcher-1.2.0.tar.gz'' exampleMeta
      (snd (AddToLibrary honestMirror binaryLauncher ''1.0.0'' ''launcher-1.2.0.tar.gz''
              exampleMeta emptyWorld))
     = (None, snd (AddToLibrary honestMirror binaryLauncher ''1.0.0'' ''launcher-1.2.0.tar.gz''
                     exampleMeta emptyWorld))"
proof -
  let ?A = "AddToLibrary honestMirror binaryLauncher ''1.0.0'' ''launcher-1.2.0.tar.gz''
      exampleMeta emptyWorld"
  have run: "?A = (fst ?A, snd ?A)"
    by simp
  have ok: "fst ?A = None"
    by code_simp
  have one: "requests (snd ?A) = 1"
    by code_simp
  show ?thesis
    using AddToLibrary_twice[OF run] ok one by blast
qed

subsection \<open>Target file names\<close>

lemma TrimPrefix_append: "TrimPrefix (p @ s) p = s"
  by (simp add: TrimPrefix_def HasPrefix_def)

lemma TrimSuffix_append: "TrimSuffix (s @ p) p = s"
  by (simp add: TrimSuffix_def HasSuffix_def)

text \<open>
  Claim C7. Round trip of the target file name: for either binary and every version string
  \<open>v\<close> (well-formed semantic versions included), the version read back from
  \<^verbatim>\<open>{binary}-{v}.tar.gz\<close> is \<open>v\<close>.
\<close>

theorem versionFromTarget_roundtrip:
  "versionFromTarget binary (binary_string binary @ ''-'' @ v @ ''.tar.gz'') = v"
proof -
  have "TrimPrefix ((binary_string binary @ ''-'') @ (v @ ''.tar.gz'')) (binary_string binary @ ''-'')
      = v @ ''.tar.gz''"
    by (rule TrimPrefix_append)
  then show ?thesis
    by (simp add: versionFromTarget_def TrimSuffix_append)
qed

subsection \<open>The executable check on Windows\<close>

text \<open>
  Claim C10. The check is not total: when \<^verbatim>\<open>os.Stat\<close> fails with an error other than
  non-existence (here: permission denied), the \<^verbatim>\<open>FileInfo\<close> is \<^verbatim>\<open>nil\<close> and the second case
  of the switch calls \<^verbatim>\<open>IsDir\<close> on it: the function panics instead of returning the error
  that its third case was written for.
\<close>

theorem checkExecutablePermissions_panics:
  "checkExecutablePermissions (\<lambda>p. (None, Some EACCES)) ''C:/locked/launcher.exe'' = Panic"
  by (simp add: checkExecutablePermissions_def IsNotExist_def)

end
